theory Spec2Isabelle
  imports Main
begin

section \<open>Text and characters\<close>

text \<open>
  A Python \<^verbatim>\<open>str\<close> is a sequence of Unicode code points. A code point is modelled as a
  natural number and a text as a list of them, so that the character classes of the
  \<^verbatim>\<open>re\<close> module range over all of Unicode. \<open>str\<close> turns an ASCII literal into a text.
\<close>

type_synonym utext = "nat list"

definition str :: "string \<Rightarrow> utext" where
  "str s = map of_char s"

abbreviation NL :: nat where "NL \<equiv> 10"
abbreviation LBR :: nat where "LBR \<equiv> 91"
abbreviation BSL :: nat where "BSL \<equiv> 92"
abbreviation RBR :: nat where "RBR \<equiv> 93"
abbreviation EQS :: nat where "EQS \<equiv> 61"

text \<open>
  The class \<^verbatim>\<open>\s\<close> of a \<^verbatim>\<open>str\<close> pattern: the code points for which
  \<^verbatim>\<open>str.isspace\<close> holds. The line feed is one of them.
\<close>

definition is_space :: "nat \<Rightarrow> bool" where
  "is_space c \<longleftrightarrow>
     (9 \<le> c \<and> c \<le> 13) \<or> (28 \<le> c \<and> c \<le> 32) \<or> c = 133 \<or> c = 160 \<or> c = 5760 \<or>
     (8192 \<le> c \<and> c \<le> 8202) \<or> c = 8232 \<or> c = 8233 \<or> c = 8239 \<or> c = 8287 \<or> c = 12288"

text \<open>\<^verbatim>\<open>str.endswith("\n")\<close>; false on the empty text.\<close>

definition endswith_nl :: "utext \<Rightarrow> bool" where
  "endswith_nl t \<longleftrightarrow> t \<noteq> [] \<and> last t = NL"

section \<open>The regular expressions of the patcher\<close>

text \<open>
  The three patterns of \<^verbatim>\<open>ensure_line_in_section\<close> are built from anchors, literal
  characters, a greedy star and a lazy plus over a character class. A pattern is the list
  of its items, matched left to right by backtracking as \<^verbatim>\<open>re\<close> does. All three are
  compiled with \<^verbatim>\<open>re.MULTILINE\<close>: \<^verbatim>\<open>^\<close> holds at the start of the searched string and
  after a line feed, \<^verbatim>\<open>$\<close> at its end and before a line feed. The dot matches every
  character but the line feed.
\<close>

datatype cclass = Whitespace | AnyButNewline

fun in_class :: "cclass \<Rightarrow> nat \<Rightarrow> bool" where
  "in_class Whitespace c = is_space c"
| "in_class AnyButNewline c = (c \<noteq> NL)"

datatype item = Bol | Eol | Lit nat | StarG cclass | PlusL cclass

text \<open>
  \<open>re_match items prev s\<close> matches the items at the head of \<open>s\<close>, where \<open>prev\<close> is the
  character before it (\<open>None\<close> at the start of the searched string). It returns the
  length of the match that backtracking finds first: a greedy star takes as many
  characters as it can and gives them back one at a time, a lazy plus takes one and
  extends one at a time.
\<close>

fun re_match :: "item list \<Rightarrow> nat option \<Rightarrow> utext \<Rightarrow> nat option" where
  "re_match [] prev s = Some 0"
| "re_match (Bol # items) prev s =
     (if prev = None \<or> prev = Some NL then re_match items prev s else None)"
| "re_match (Eol # items) prev s =
     (case s of [] \<Rightarrow> re_match items prev s
      | c # cs \<Rightarrow> if c = NL then re_match items prev s else None)"
| "re_match (Lit a # items) prev [] = None"
| "re_match (Lit a # items) prev (c # cs) =
     (if c = a then map_option Suc (re_match items (Some c) cs) else None)"
| "re_match (StarG k # items) prev [] = re_match items prev []"
| "re_match (StarG k # items) prev (c # cs) =
     (if in_class k c
      then (case re_match (StarG k # items) (Some c) cs of
              Some n \<Rightarrow> Some (Suc n)
            | None \<Rightarrow> re_match items prev (c # cs))
      else re_match items prev (c # cs))"
| "re_match (PlusL k # items) prev [] = None"
| "re_match (PlusL k # items) prev (c # cs) =
     (if in_class k c
      then (case re_match items (Some c) cs of
              Some n \<Rightarrow> Some (Suc n)
            | None \<Rightarrow> map_option Suc (re_match (PlusL k # items) (Some c) cs))
      else None)"

text \<open>
  \<open>search_from\<close> is the scan of \<^verbatim>\<open>Pattern.search\<close>: the first start position, from left
  to right and up to the end of the string, at which the pattern matches. The result is
  the start offset and the length of the match.
\<close>

fun search_from :: "item list \<Rightarrow> nat option \<Rightarrow> utext \<Rightarrow> (nat \<times> nat) option" where
  "search_from pat prev [] = map_option (Pair 0) (re_match pat prev [])"
| "search_from pat prev (c # cs) =
     (case re_match pat prev (c # cs) of
        Some n \<Rightarrow> Some (0, n)
      | None \<Rightarrow> map_option (\<lambda>(i, n). (Suc i, n)) (search_from pat (Some c) cs))"

definition re_search :: "item list \<Rightarrow> utext \<Rightarrow> (nat \<times> nat) option" where
  "re_search pat s = search_from pat None s"

text \<open>
  \<^verbatim>\<open>^\[{re.escape(section)}\]\s*$\<close>, \<^verbatim>\<open>^\[.+?\]\s*$\<close> and
  \<^verbatim>\<open>^\s*{re.escape(key)}\s*=\s*.*$\<close>. \<^verbatim>\<open>re.escape\<close> makes the section and the key match
  literally.
\<close>

definition section_re :: "utext \<Rightarrow> item list" where
  "section_re section = [Bol, Lit LBR] @ map Lit section @ [Lit RBR, StarG Whitespace, Eol]"

definition next_section_re :: "item list" where
  "next_section_re = [Bol, Lit LBR, PlusL AnyButNewline, Lit RBR, StarG Whitespace, Eol]"

definition key_re :: "utext \<Rightarrow> item list" where
  "key_re key =
     [Bol, StarG Whitespace] @ map Lit key @
     [StarG Whitespace, Lit EQS, StarG Whitespace, StarG AnyButNewline, Eol]"

section \<open>Replacement templates\<close>

text \<open>
  The second argument of \<^verbatim>\<open>Pattern.sub\<close> is a template: a backslash starts an escape.
  The patterns here have no group, so a template is a sequence of literal characters and
  references to the whole match (\<^verbatim>\<open>\g<0>\<close>); every other group reference is an error.
  Group names are read as Python 3.12 reads them (ASCII digits only).
\<close>

datatype error = FileNotFoundError | TemplateError

datatype piece = Chr nat | WholeMatch

definition is_digit :: "nat \<Rightarrow> bool" where
  "is_digit c \<longleftrightarrow> 48 \<le> c \<and> c \<le> 57"

definition is_octdigit :: "nat \<Rightarrow> bool" where
  "is_octdigit c \<longleftrightarrow> 48 \<le> c \<and> c \<le> 55"

definition is_ascii_letter :: "nat \<Rightarrow> bool" where
  "is_ascii_letter c \<longleftrightarrow> (65 \<le> c \<and> c \<le> 90) \<or> (97 \<le> c \<and> c \<le> 122)"

text \<open>The table \<^verbatim>\<open>ESCAPES\<close> of the parser: a, b, f, n, r, t, v and the backslash.\<close>

definition escape_of :: "nat \<Rightarrow> nat option" where
  "escape_of c =
     (if c = 97 then Some 7 else if c = 98 then Some 8 else if c = 102 then Some 12
      else if c = 110 then Some 10 else if c = 114 then Some 13 else if c = 116 then Some 9
      else if c = 118 then Some 11 else if c = BSL then Some BSL else None)"

definition cons_piece :: "piece \<Rightarrow> error + piece list \<Rightarrow> error + piece list" where
  "cons_piece p r = (case r of Inl e \<Rightarrow> Inl e | Inr ps \<Rightarrow> Inr (p # ps))"

function parse_template :: "utext \<Rightarrow> error + piece list" where
  "parse_template [] = Inr []"
| "parse_template (c # cs) =
     (if c \<noteq> BSL then cons_piece (Chr c) (parse_template cs)
      else (case cs of
         [] \<Rightarrow> Inl TemplateError
       | e # es \<Rightarrow>
          if e = 103 then
            (case es of
               [] \<Rightarrow> Inl TemplateError
             | l # ns \<Rightarrow>
                if l \<noteq> 60 then Inl TemplateError
                else if 62 \<notin> set ns then Inl TemplateError
                else if takeWhile (\<lambda>x. x \<noteq> 62) ns \<noteq> [] \<and>
                        list_all (\<lambda>x. x = 48) (takeWhile (\<lambda>x. x \<noteq> 62) ns)
                then cons_piece WholeMatch (parse_template (tl (dropWhile (\<lambda>x. x \<noteq> 62) ns)))
                else Inl TemplateError)
          else if e = 48 then
            (case es of
               [] \<Rightarrow> cons_piece (Chr 0) (parse_template es)
             | d # ds \<Rightarrow>
                if is_octdigit d then
                  (case ds of
                     [] \<Rightarrow> cons_piece (Chr (d - 48)) (parse_template ds)
                   | d' # ds' \<Rightarrow>
                      if is_octdigit d'
                      then cons_piece (Chr (8 * (d - 48) + (d' - 48))) (parse_template ds')
                      else cons_piece (Chr (d - 48)) (parse_template ds))
                else cons_piece (Chr 0) (parse_template es))
          else if is_digit e then
            (case es of
               [] \<Rightarrow> Inl TemplateError
             | d # ds \<Rightarrow>
                (case ds of
                   [] \<Rightarrow> Inl TemplateError
                 | d' # ds' \<Rightarrow>
                    if is_octdigit e \<and> is_octdigit d \<and> is_octdigit d' \<and>
                       64 * (e - 48) + 8 * (d - 48) + (d' - 48) \<le> 255
                    then cons_piece (Chr (64 * (e - 48) + 8 * (d - 48) + (d' - 48)))
                           (parse_template ds')
                    else Inl TemplateError))
          else (case escape_of e of
                  Some x \<Rightarrow> cons_piece (Chr x) (parse_template es)
                | None \<Rightarrow>
                   if is_ascii_letter e then Inl TemplateError
                   else cons_piece (Chr BSL) (cons_piece (Chr e) (parse_template es)))))"
  by pat_completeness auto
termination
  apply (relation "measure length")
             apply (auto simp: less_Suc_eq_le)
  apply (rule order_trans [OF diff_le_self])
  apply (rule order_trans [OF length_dropWhile_le])
  apply simp
  done

fun expand_template :: "piece list \<Rightarrow> utext \<Rightarrow> utext" where
  "expand_template [] m = []"
| "expand_template (Chr c # ps) m = c # expand_template ps m"
| "expand_template (WholeMatch # ps) m = m @ expand_template ps m"

text \<open>
  \<^verbatim>\<open>pattern.sub(repl, s, count=1)\<close>: the template is compiled, then the first match of
  the pattern in \<open>s\<close>, if there is one, is replaced by the expanded template.
\<close>

definition re_sub_first :: "item list \<Rightarrow> utext \<Rightarrow> utext \<Rightarrow> error + utext" where
  "re_sub_first pat repl s =
     (case parse_template repl of
        Inl e \<Rightarrow> Inl e
      | Inr tpl \<Rightarrow>
         (case re_search pat s of
            None \<Rightarrow> Inr s
          | Some (i, n) \<Rightarrow>
             Inr (take i s @ expand_template tpl (take n (drop i s)) @ drop (i + n) s)))"

section \<open>The patcher\<close>

text \<open>
  \<^verbatim>\<open>ensure_line_in_section(conf, section, key, value)\<close>, in the three steps of its
  body. \<open>section_span\<close> is the search for the header and for the next header after it: it
  returns \<^verbatim>\<open>start\<close> and \<^verbatim>\<open>end\<close>, or \<open>None\<close> when \<^verbatim>\<open>section_re.search(conf)\<close> finds
  nothing. The slice \<^verbatim>\<open>conf[start:]\<close> is a string of its own, so \<^verbatim>\<open>^\<close> holds at its
  first position.
\<close>

definition section_span :: "utext \<Rightarrow> utext \<Rightarrow> (nat \<times> nat) option" where
  "section_span conf section =
     (case re_search (section_re section) conf of
        None \<Rightarrow> None
      | Some (ms, ml) \<Rightarrow>
         (let start = ms + ml
          in Some (start,
                   start + (case re_search next_section_re (drop start conf) of
                              Some (ns, nl) \<Rightarrow> ns
                            | None \<Rightarrow> length (drop start conf)))))"

text \<open>
  \<open>upsert_block\<close> is the \<^verbatim>\<open>if key_re.search(block)\<close> statement: the first match of the
  key pattern is replaced through \<^verbatim>\<open>key_re.sub\<close> with the template \<^verbatim>\<open>f"{key}={value}"\<close>,
  or the line is appended. The only exception that can be raised comes from the template.
\<close>

definition upsert_block :: "utext \<Rightarrow> utext \<Rightarrow> utext \<Rightarrow> error + utext" where
  "upsert_block block key value =
     (if re_search (key_re key) block \<noteq> None
      then re_sub_first (key_re key) (key @ [EQS] @ value) block
      else Inr ((if endswith_nl block then block else block @ [NL]) @
                key @ [EQS] @ value @ [NL]))"

text \<open>The slice \<^verbatim>\<open>conf[start:end]\<close> is \<open>take (end - start) (drop start conf)\<close>.\<close>

definition ensure_line_in_section :: "utext \<Rightarrow> utext \<Rightarrow> utext \<Rightarrow> utext \<Rightarrow> error + utext" where
  "ensure_line_in_section conf section key value =
     (case section_span conf section of
        None \<Rightarrow>
         Inr ((if endswith_nl conf then conf else conf @ [NL]) @
              [NL, LBR] @ section @ [RBR, NL] @ key @ [EQS] @ value @ [NL])
      | Some (start, end') \<Rightarrow>
         (case upsert_block (take (end' - start) (drop start conf)) key value of
            Inl e \<Rightarrow> Inl e
          | Inr block \<Rightarrow> Inr (take start conf @ block @ drop end' conf)))"

section \<open>Files\<close>

text \<open>
  The file system is a map from paths to the text of each file (the text that
  \<^verbatim>\<open>read_text\<close> returns and \<^verbatim>\<open>write_text\<close> stores), together with the trace of what
  a run has done to it and printed, in order. The clock of \<^verbatim>\<open>datetime.now()\<close> is the
  argument \<open>ts\<close>, the formatted time stamp. An exception leaves the world as it was
  when it was raised.
\<close>

datatype event = Copied utext utext | Written utext utext | Printed utext

record world =
  files :: "utext \<Rightarrow> utext option"
  trace :: "event list"

definition GDM_CUSTOM_CONF :: utext where
  "GDM_CUSTOM_CONF = str ''/etc/gdm3/custom.conf''"

text \<open>
  \<^verbatim>\<open>path.with_suffix(path.suffix + f".bak_{ts}")\<close> appends the new suffix to the path.
\<close>

definition backup_file :: "world \<Rightarrow> utext \<Rightarrow> utext \<Rightarrow> (error + utext) \<times> world" where
  "backup_file w path ts =
     (case files w path of
        None \<Rightarrow> (Inl FileNotFoundError, w)
      | Some content \<Rightarrow>
         (let backup = path @ str ''.bak_'' @ ts
          in (Inr backup,
              w\<lparr>files := (files w)(backup \<mapsto> content),
                trace := trace w @
                  [Copied path backup,
                   Printed (str ''Backed up '' @ path @ str '' -> '' @ backup)]\<rparr>)))"

definition read_text :: "world \<Rightarrow> utext \<Rightarrow> error + utext" where
  "read_text w path = (case files w path of None \<Rightarrow> Inl FileNotFoundError | Some t \<Rightarrow> Inr t)"

definition write_text :: "world \<Rightarrow> utext \<Rightarrow> utext \<Rightarrow> world" where
  "write_text w path t =
     w\<lparr>files := (files w)(path \<mapsto> t), trace := trace w @ [Written path t]\<rparr>"

definition print :: "world \<Rightarrow> utext \<Rightarrow> world" where
  "print w msg = w\<lparr>trace := trace w @ [Printed msg]\<rparr>"

definition disable_wayland_in_gdm :: "world \<Rightarrow> utext \<Rightarrow> error option \<times> world" where
  "disable_wayland_in_gdm w ts =
     (case backup_file w GDM_CUSTOM_CONF ts of
        (Inl e, w1) \<Rightarrow> (Some e, w1)
      | (Inr backup, w1) \<Rightarrow>
         (case read_text w1 GDM_CUSTOM_CONF of
            Inl e \<Rightarrow> (Some e, w1)
          | Inr conf \<Rightarrow>
             (case ensure_line_in_section conf (str ''daemon'') (str ''WaylandEnable'')
                     (str ''false'') of
                Inl e \<Rightarrow> (Some e, w1)
              | Inr conf2 \<Rightarrow>
                 if conf2 \<noteq> conf
                 then (None, print (write_text w1 GDM_CUSTOM_CONF conf2)
                         (str ''Updated GDM config: Wayland disabled (WaylandEnable=false).''))
                 else (None, print w1
                         (str ''GDM config already has WaylandEnable=false (no change).'')))))"

definition enable_gdm_autologin :: "world \<Rightarrow> utext \<Rightarrow> utext \<Rightarrow> error option \<times> world" where
  "enable_gdm_autologin w user ts =
     (case backup_file w GDM_CUSTOM_CONF ts of
        (Inl e, w1) \<Rightarrow> (Some e, w1)
      | (Inr backup, w1) \<Rightarrow>
         (case read_text w1 GDM_CUSTOM_CONF of
            Inl e \<Rightarrow> (Some e, w1)
          | Inr conf \<Rightarrow>
             (case ensure_line_in_section conf (str ''daemon'') (str ''AutomaticLoginEnable'')
                     (str ''true'') of
                Inl e \<Rightarrow> (Some e, w1)
              | Inr conf1 \<Rightarrow>
                 (case ensure_line_in_section conf1 (str ''daemon'') (str ''AutomaticLogin'')
                         user of
                    Inl e \<Rightarrow> (Some e, w1)
                  | Inr conf2 \<Rightarrow>
                     if conf2 \<noteq> conf
                     then (None, print (write_text w1 GDM_CUSTOM_CONF conf2)
                             (str ''Updated GDM config: auto-login enabled for user '' @ [39] @
                              user @ [39] @ str ''.''))
                     else (None, print w1
                             (str ''GDM auto-login settings already present (no change).''))))))"

section \<open>Notions used to state the properties\<close>

text \<open>\<^verbatim>\<open>sub in t\<close>: the text \<open>sub\<close> occurs in \<open>t\<close> as a contiguous substring.\<close>

primrec has_substring :: "utext \<Rightarrow> utext \<Rightarrow> bool" where
  "has_substring [] sub = (sub = [])"
| "has_substring (c # cs) sub = (take (length sub) (c # cs) = sub \<or> has_substring cs sub)"

text \<open>
  The character before position \<open>i\<close> of \<open>s\<close>, where \<open>prev\<close> is the one before \<open>s\<close>
  itself: what \<open>search_from\<close> passes to \<open>re_match\<close> at that position.
\<close>

definition prev_at :: "nat option \<Rightarrow> utext \<Rightarrow> nat \<Rightarrow> nat option" where
  "prev_at prev s i = (if i = 0 then prev else Some (s ! (i - 1)))"


text \<open>
  The writes of a run, in order: the path and the text of every \<^verbatim>\<open>write_text\<close> in a
  trace.
\<close>

definition writes :: "event list \<Rightarrow> (utext \<times> utext) list" where
  "writes tr = concat (map (\<lambda>e. case e of Written p t \<Rightarrow> [(p, t)] | _ \<Rightarrow> []) tr)"

section \<open>Properties of the search\<close>


lemma search_from_Some:
  "search_from pat prev s = Some (i, n) \<Longrightarrow>
     i \<le> length s \<and> re_match pat (prev_at prev s i) (drop i s) = Some n \<and>
     (\<forall>j<i. re_match pat (prev_at prev s j) (drop j s) = None)"
proof (induction s arbitrary: prev i)
  case Nil
  then show ?case by (auto simp: prev_at_def)
next
  case (Cons c cs)
  show ?case
  proof (cases "re_match pat prev (c # cs)")
    case (Some m)
    with Cons.prems show ?thesis by (auto simp: prev_at_def)
  next
    case None
    with Cons.prems obtain i' where i': "i = Suc i'" "search_from pat (Some c) cs = Some (i', n)"
      by (auto split: option.splits)
    from Cons.IH [OF i'(2)] have IH: "i' \<le> length cs"
      "re_match pat (prev_at (Some c) cs i') (drop i' cs) = Some n"
      "\<forall>j<i'. re_match pat (prev_at (Some c) cs j) (drop j cs) = None" by auto
    have pa: "\<And>j. prev_at prev (c # cs) (Suc j) = prev_at (Some c) cs j"
      by (auto simp: prev_at_def nth_Cons')
    have "\<forall>j<i. re_match pat (prev_at prev (c # cs) j) (drop j (c # cs)) = None"
    proof (intro allI impI)
      fix j assume "j < i"
      show "re_match pat (prev_at prev (c # cs) j) (drop j (c # cs)) = None"
      proof (cases j)
        case 0
        then show ?thesis using None by (simp add: prev_at_def)
      next
        case (Suc j')
        with \<open>j < i\<close> i'(1) have "j' < i'" by simp
        with IH(3) have "re_match pat (prev_at (Some c) cs j') (drop j' cs) = None" by blast
        then show ?thesis by (simp add: Suc pa)
      qed
    qed
    moreover have "i \<le> length (c # cs)" using IH(1) i'(1) by simp
    moreover have "re_match pat (prev_at prev (c # cs) i) (drop i (c # cs)) = Some n"
      using IH(2) by (simp add: i'(1) pa)
    ultimately show ?thesis by blast
  qed
qed

lemma search_from_None:
  "search_from pat prev s = None \<Longrightarrow> j \<le> length s \<Longrightarrow>
     re_match pat (prev_at prev s j) (drop j s) = None"
proof (induction s arbitrary: prev j)
  case Nil
  then show ?case by (simp add: prev_at_def)
next
  case (Cons c cs)
  have a1: "re_match pat prev (c # cs) = None"
    using Cons.prems(1) by (cases "re_match pat prev (c # cs)") simp_all
  have a2: "search_from pat (Some c) cs = None"
    using Cons.prems(1) a1 by simp
  show ?case
  proof (cases j)
    case 0
    then show ?thesis using a1 by (simp add: prev_at_def)
  next
    case (Suc j')
    with Cons.prems(2) have "j' \<le> length cs" by simp
    from Cons.IH [OF a2 this]
    have "re_match pat (prev_at (Some c) cs j') (drop j' cs) = None" .
    moreover have "prev_at prev (c # cs) (Suc j') = prev_at (Some c) cs j'"
      by (simp add: prev_at_def nth_Cons')
    ultimately show ?thesis by (simp add: Suc)
  qed
qed

lemma search_from_found:
  assumes m: "re_match pat (prev_at prev s j) (drop j s) \<noteq> None" and j: "j \<le> length s"
  shows "\<exists>i n. search_from pat prev s = Some (i, n) \<and> i \<le> j"
proof (cases "search_from pat prev s")
  case None
  have "re_match pat (prev_at prev s j) (drop j s) = None"
    by (rule search_from_None [OF None j])
  with m show ?thesis by simp
next
  case (Some r)
  obtain i n where r: "r = (i, n)" by (cases r)
  have eq: "search_from pat prev s = Some (i, n)" using Some r by simp
  have nomatch: "\<forall>k<i. re_match pat (prev_at prev s k) (drop k s) = None"
    using search_from_Some [OF eq] by simp
  have "i \<le> j"
  proof (rule ccontr)
    assume "\<not> i \<le> j"
    then have "j < i" by simp
    with nomatch have "re_match pat (prev_at prev s j) (drop j s) = None" by simp
    with m show False by simp
  qed
  with eq show ?thesis by simp
qed


section \<open>Evaluation on concrete texts\<close>

lemmas eval_defs = ensure_line_in_section_def section_span_def upsert_block_def re_search_def
  section_re_def next_section_re_def key_re_def str_def is_space_def endswith_nl_def
  re_sub_first_def cons_piece_def escape_of_def is_digit_def is_octdigit_def is_ascii_letter_def

text \<open>
  Claim C1 (idempotence: patching twice with the same arguments gives the same text as
  patching once). The code does not have this property. Patching the empty text creates
  the section; patching the result again changes it: the key pattern starts with
  \<^verbatim>\<open>^\s*\<close>, the block starts at the line feed that ends the header line, and
  \<^verbatim>\<open>\s\<close> matches that line feed, so the replacement removes it and the key line is
  joined to the header.
\<close>

theorem second_patch_of_empty_text_differs:
  "ensure_line_in_section [] (str ''daemon'') (str ''WaylandEnable'') (str ''false'') =
     Inr (str ''\<newline>\<newline>[daemon]\<newline>WaylandEnable=false\<newline>'') \<and>
   ensure_line_in_section (str ''\<newline>\<newline>[daemon]\<newline>WaylandEnable=false\<newline>'')
       (str ''daemon'') (str ''WaylandEnable'') (str ''false'') =
     Inr (str ''\<newline>\<newline>[daemon]WaylandEnable=false\<newline>'')"
  by (simp add: eval_defs)

text \<open>
  Claim C2 (an existing line \<^verbatim>\<open>WaylandEnable = true\<close> is replaced by the normalized
  line and every other character of the body, the line feeds between lines included,
  is unchanged). On the text below the code also removes the line feed between the
  header and the key line.
\<close>

theorem spaced_key_line_after_header_joined:
  "ensure_line_in_section (str ''[daemon]\<newline>WaylandEnable = true\<newline>'')
       (str ''daemon'') (str ''WaylandEnable'') (str ''false'') =
     Inr (str ''[daemon]WaylandEnable=false\<newline>'')"
  by (simp add: eval_defs)

text \<open>
  Claim C10 (the returned text always contains \<^verbatim>\<open>key=value\<close>). When the key is already
  present the new line goes through the template of \<^verbatim>\<open>key_re.sub\<close>, where a backslash
  starts an escape: for the value \<^verbatim>\<open>CORP\nick\<close> (a backslash followed by n) the code
  writes a line feed, and the returned text does not contain the requested line.
\<close>

theorem backslash_value_not_written:
  "ensure_line_in_section
       (str ''[daemon]\<newline>AutomaticLoginEnable=true\<newline>AutomaticLogin=old\<newline>'')
       (str ''daemon'') (str ''AutomaticLogin'') (str ''CORP'' @ [BSL] @ str ''nick'') =
     Inr (str ''[daemon]\<newline>AutomaticLoginEnable=true\<newline>AutomaticLogin=CORP\<newline>ick\<newline>'') \<and>
   \<not> has_substring
       (str ''[daemon]\<newline>AutomaticLoginEnable=true\<newline>AutomaticLogin=CORP\<newline>ick\<newline>'')
       (str ''AutomaticLogin=CORP'' @ [BSL] @ str ''nick'')"
  by (simp add: eval_defs)

section \<open>The span of the section\<close>







section \<open>The frame of a patch\<close>




section \<open>Creating the section and appending the key\<close>






section \<open>Runs of the callers\<close>

lemma writes_append: "writes (xs @ ys) = writes xs @ writes ys"
  by (simp add: writes_def)

lemma writes_simps:
  "writes [] = []"
  "writes (Copied a b # tr) = writes tr"
  "writes (Printed m # tr) = writes tr"
  "writes (Written p t # tr) = (p, t) # writes tr"
  by (simp_all add: writes_def)

lemma backup_path_neq:
  "path @ str ''.bak_'' @ ts \<noteq> path" "path \<noteq> path @ str ''.bak_'' @ ts"
  "str ''.bak_'' \<noteq> []"
  by (simp_all add: str_def)



lemma disable_wayland_run:
  assumes "files w GDM_CUSTOM_CONF = Some conf"
    and "ensure_line_in_section conf (str ''daemon'') (str ''WaylandEnable'') (str ''false'')
           = Inr conf2"
  shows "disable_wayland_in_gdm w ts =
           (None,
            if conf2 \<noteq> conf
            then print (write_text (snd (backup_file w GDM_CUSTOM_CONF ts)) GDM_CUSTOM_CONF conf2)
                  (str ''Updated GDM config: Wayland disabled (WaylandEnable=false).'')
            else print (snd (backup_file w GDM_CUSTOM_CONF ts))
                  (str ''GDM config already has WaylandEnable=false (no change).''))"
  using assms
  by (simp add: disable_wayland_in_gdm_def backup_file_def read_text_def Let_def backup_path_neq)


lemma backup_file_found:
  assumes "files w path = Some conf"
  shows "backup_file w path ts =
           (Inr (path @ str ''.bak_'' @ ts),
            w\<lparr>files := (files w)(path @ str ''.bak_'' @ ts \<mapsto> conf),
              trace := trace w @
                [Copied path (path @ str ''.bak_'' @ ts),
                 Printed (str ''Backed up '' @ path @ str '' -> '' @ path @ str ''.bak_'' @ ts)]\<rparr>)"
  using assms by (simp add: backup_file_def Let_def)

lemma disable_wayland_backed_up:
  assumes "files w GDM_CUSTOM_CONF = Some conf"
  shows "files (snd (disable_wayland_in_gdm w ts)) (GDM_CUSTOM_CONF @ str ''.bak_'' @ ts) = Some conf \<and>
         (\<exists>rest. trace (snd (disable_wayland_in_gdm w ts)) =
            trace w @ Copied GDM_CUSTOM_CONF (GDM_CUSTOM_CONF @ str ''.bak_'' @ ts) # rest)"
  using assms
  by (auto simp: disable_wayland_in_gdm_def backup_file_def read_text_def Let_def backup_path_neq
        print_def write_text_def split: sum.splits)

lemma enable_autologin_backed_up:
  assumes "files w GDM_CUSTOM_CONF = Some conf"
  shows "files (snd (enable_gdm_autologin w user ts)) (GDM_CUSTOM_CONF @ str ''.bak_'' @ ts) = Some conf \<and>
         (\<exists>rest. trace (snd (enable_gdm_autologin w user ts)) =
            trace w @ Copied GDM_CUSTOM_CONF (GDM_CUSTOM_CONF @ str ''.bak_'' @ ts) # rest)"
  using assms
  by (auto simp: enable_gdm_autologin_def backup_file_def read_text_def Let_def backup_path_neq
        print_def write_text_def split: sum.splits)

lemma missing_file_raises:
  assumes "files w GDM_CUSTOM_CONF = None"
  shows "disable_wayland_in_gdm w ts = (Some FileNotFoundError, w)"
    and "enable_gdm_autologin w user ts = (Some FileNotFoundError, w)"
  using assms
  by (simp_all add: disable_wayland_in_gdm_def enable_gdm_autologin_def backup_file_def)

lemma run_effect:
  assumes "files w GDM_CUSTOM_CONF = Some conf"
  shows "files (if conf2 \<noteq> conf
           then print (write_text (snd (backup_file w GDM_CUSTOM_CONF ts)) GDM_CUSTOM_CONF conf2) m1
           else print (snd (backup_file w GDM_CUSTOM_CONF ts)) m2) GDM_CUSTOM_CONF = Some conf2"
    and "writes (trace (if conf2 \<noteq> conf
           then print (write_text (snd (backup_file w GDM_CUSTOM_CONF ts)) GDM_CUSTOM_CONF conf2) m1
           else print (snd (backup_file w GDM_CUSTOM_CONF ts)) m2)) =
         writes (trace w) @ (if conf2 = conf then [] else [(GDM_CUSTOM_CONF, conf2)])"
    and "last (trace (if conf2 \<noteq> conf
           then print (write_text (snd (backup_file w GDM_CUSTOM_CONF ts)) GDM_CUSTOM_CONF conf2) m1
           else print (snd (backup_file w GDM_CUSTOM_CONF ts)) m2)) =
         Printed (if conf2 = conf then m2 else m1)"
  using assms
  by (simp_all add: backup_file_found print_def write_text_def backup_path_neq writes_append
        writes_simps)

text \<open>
  Claim C4 (the example of the specification: the text
  \<^verbatim>\<open>"[daemon]\nAutomaticLoginEnable=false\n"\<close> patched with section \<^verbatim>\<open>daemon\<close>, key
  \<^verbatim>\<open>WaylandEnable\<close>, value \<^verbatim>\<open>false\<close> gets the line \<^verbatim>\<open>WaylandEnable=false\<close> at its end,
  a second patch leaves that text as it is, and the second run of
  \<^verbatim>\<open>disable_wayland_in_gdm\<close> on a file with this text reports no change and writes
  nothing).
\<close>

theorem daemon_example_second_run_no_change:
  assumes "files w GDM_CUSTOM_CONF = Some (str ''[daemon]\<newline>AutomaticLoginEnable=false\<newline>'')"
  shows "ensure_line_in_section (str ''[daemon]\<newline>AutomaticLoginEnable=false\<newline>'')
             (str ''daemon'') (str ''WaylandEnable'') (str ''false'') =
           Inr (str ''[daemon]\<newline>AutomaticLoginEnable=false\<newline>WaylandEnable=false\<newline>'') \<and>
         ensure_line_in_section
             (str ''[daemon]\<newline>AutomaticLoginEnable=false\<newline>WaylandEnable=false\<newline>'')
             (str ''daemon'') (str ''WaylandEnable'') (str ''false'') =
           Inr (str ''[daemon]\<newline>AutomaticLoginEnable=false\<newline>WaylandEnable=false\<newline>'') \<and>
         (let run1 = disable_wayland_in_gdm w ts1;
              run2 = disable_wayland_in_gdm (snd run1) ts2
          in fst run1 = None \<and>
             files (snd run1) GDM_CUSTOM_CONF =
               Some (str ''[daemon]\<newline>AutomaticLoginEnable=false\<newline>WaylandEnable=false\<newline>'') \<and>
             run2 = (None, print (snd (backup_file (snd run1) GDM_CUSTOM_CONF ts2))
                      (str ''GDM config already has WaylandEnable=false (no change).'')) \<and>
             files (snd run2) GDM_CUSTOM_CONF =
               Some (str ''[daemon]\<newline>AutomaticLoginEnable=false\<newline>WaylandEnable=false\<newline>'') \<and>
             writes (trace (snd run2)) = writes (trace (snd run1)))"
proof -
  let ?A = "str ''[daemon]\<newline>AutomaticLoginEnable=false\<newline>''"
  let ?B = "str ''[daemon]\<newline>AutomaticLoginEnable=false\<newline>WaylandEnable=false\<newline>''"
  have e1: "ensure_line_in_section ?A (str ''daemon'') (str ''WaylandEnable'') (str ''false'') = Inr ?B"
    by (simp add: eval_defs)
  have e2: "ensure_line_in_section ?B (str ''daemon'') (str ''WaylandEnable'') (str ''false'') = Inr ?B"
    by (simp add: eval_defs)
  have r1: "fst (disable_wayland_in_gdm w ts1) = None"
    by (simp add: disable_wayland_run [OF assms e1])
  have f1: "files (snd (disable_wayland_in_gdm w ts1)) GDM_CUSTOM_CONF = Some ?B"
    unfolding disable_wayland_run [OF assms e1] snd_conv by (rule run_effect(1) [OF assms])
  note r2 = disable_wayland_run [OF f1 e2, of ts2]
  have r2': "disable_wayland_in_gdm (snd (disable_wayland_in_gdm w ts1)) ts2 =
               (None, print (snd (backup_file (snd (disable_wayland_in_gdm w ts1)) GDM_CUSTOM_CONF ts2))
                      (str ''GDM config already has WaylandEnable=false (no change).''))"
    unfolding r2 by simp
  have f2: "files (snd (disable_wayland_in_gdm (snd (disable_wayland_in_gdm w ts1)) ts2))
              GDM_CUSTOM_CONF = Some ?B"
    unfolding r2 snd_conv by (rule run_effect(1) [OF f1])
  have w2: "writes (trace (snd (disable_wayland_in_gdm (snd (disable_wayland_in_gdm w ts1)) ts2))) =
              writes (trace (snd (disable_wayland_in_gdm w ts1)))"
    unfolding r2 snd_conv using run_effect(2) [OF f1, of ?B] by simp
  show ?thesis unfolding Let_def by (intro conjI) (rule e1 e2 r1 f1 r2' f2 w2)+
qed

theorem daemon_example_second_run_no_change_witness:
  "(let w = \<lparr>files = [GDM_CUSTOM_CONF \<mapsto> str ''[daemon]\<newline>AutomaticLoginEnable=false\<newline>''],
             trace = []\<rparr>;
        run1 = disable_wayland_in_gdm w (str ''20240101_120000'');
        run2 = disable_wayland_in_gdm (snd run1) (str ''20240101_120005'')
    in files w GDM_CUSTOM_CONF = Some (str ''[daemon]\<newline>AutomaticLoginEnable=false\<newline>'') \<and>
       fst run1 = None \<and>
       files (snd run1) GDM_CUSTOM_CONF =
         Some (str ''[daemon]\<newline>AutomaticLoginEnable=false\<newline>WaylandEnable=false\<newline>'') \<and>
       fst run2 = None \<and>
       files (snd run2) GDM_CUSTOM_CONF =
         Some (str ''[daemon]\<newline>AutomaticLoginEnable=false\<newline>WaylandEnable=false\<newline>'') \<and>
       writes (trace (snd run2)) = writes (trace (snd run1)))"
proof -
  let ?w = "\<lparr>files = [GDM_CUSTOM_CONF \<mapsto> str ''[daemon]\<newline>AutomaticLoginEnable=false\<newline>''],
             trace = []\<rparr>"
  have h: "files ?w GDM_CUSTOM_CONF = Some (str ''[daemon]\<newline>AutomaticLoginEnable=false\<newline>'')"
    by simp
  note t = daemon_example_second_run_no_change [OF h,
      where ?ts1.0 = "str ''20240101_120000''" and ?ts2.0 = "str ''20240101_120005''",
      unfolded Let_def]
  from t have r2: "fst (disable_wayland_in_gdm
                     (snd (disable_wayland_in_gdm ?w (str ''20240101_120000'')))
                     (str ''20240101_120005'')) = None"
    by (elim conjE) simp
  show ?thesis unfolding Let_def
    by (insert h t r2, elim conjE, intro conjI, assumption+)
qed

text \<open>
  Claim C7 (a run on a missing file raises \<^verbatim>\<open>FileNotFoundError\<close> and does nothing else;
  a run on an existing file first copies it to the backup path, so that the copy is the
  first event of the run, before any write, and the backup holds the text the file had
  before the run, whatever the run does afterwards).
\<close>

theorem backup_precedes_any_write:
  "(files w GDM_CUSTOM_CONF = None \<longrightarrow>
      disable_wayland_in_gdm w ts = (Some FileNotFoundError, w) \<and>
      enable_gdm_autologin w user ts = (Some FileNotFoundError, w)) \<and>
   (\<forall>conf. files w GDM_CUSTOM_CONF = Some conf \<longrightarrow>
      (\<forall>w'. w' = snd (disable_wayland_in_gdm w ts) \<or> w' = snd (enable_gdm_autologin w user ts) \<longrightarrow>
         files w' (GDM_CUSTOM_CONF @ str ''.bak_'' @ ts) = Some conf \<and>
         (\<exists>rest. trace w' =
            trace w @ Copied GDM_CUSTOM_CONF (GDM_CUSTOM_CONF @ str ''.bak_'' @ ts) # rest)))"
  using missing_file_raises(1) [of w ts] missing_file_raises(2) [of w user ts]
    disable_wayland_backed_up [of w _ ts]
    enable_autologin_backed_up [of w _ user ts]
  by blast


theorem backup_precedes_any_write_witness:
  "(let w = \<lparr>files = Map.empty, trace = []\<rparr>
    in files w GDM_CUSTOM_CONF = None \<and>
       disable_wayland_in_gdm w (str ''20240101_120000'') = (Some FileNotFoundError, w) \<and>
       enable_gdm_autologin w (str ''gert'') (str ''20240101_120000'') =
         (Some FileNotFoundError, w)) \<and>
   (let w = \<lparr>files = [GDM_CUSTOM_CONF \<mapsto> str ''[security]\<newline>x=1\<newline>''], trace = []\<rparr>;
        backup = GDM_CUSTOM_CONF @ str ''.bak_'' @ str ''20240101_120000'';
        w1 = snd (disable_wayland_in_gdm w (str ''20240101_120000''));
        w2 = snd (enable_gdm_autologin w (str ''gert'') (str ''20240101_120000''))
    in files w GDM_CUSTOM_CONF = Some (str ''[security]\<newline>x=1\<newline>'') \<and>
       files w1 backup = Some (str ''[security]\<newline>x=1\<newline>'') \<and>
       (\<exists>rest. trace w1 = Copied GDM_CUSTOM_CONF backup # rest) \<and>
       files w2 backup = Some (str ''[security]\<newline>x=1\<newline>'') \<and>
       (\<exists>rest. trace w2 = Copied GDM_CUSTOM_CONF backup # rest))"
proof -
  let ?u = "\<lparr>files = Map.empty, trace = []\<rparr> :: world"
  let ?w = "\<lparr>files = [GDM_CUSTOM_CONF \<mapsto> str ''[security]\<newline>x=1\<newline>''], trace = []\<rparr>"
  have h0: "files ?u GDM_CUSTOM_CONF = None" by simp
  have h: "files ?w GDM_CUSTOM_CONF = Some (str ''[security]\<newline>x=1\<newline>'')" by simp
  from backup_precedes_any_write [of ?u "str ''20240101_120000''" "str ''gert''"] h0
  have a: "disable_wayland_in_gdm ?u (str ''20240101_120000'') = (Some FileNotFoundError, ?u) \<and>
           enable_gdm_autologin ?u (str ''gert'') (str ''20240101_120000'') =
             (Some FileNotFoundError, ?u)"
    by blast
  from backup_precedes_any_write [of ?w "str ''20240101_120000''" "str ''gert''"] h
  have b: "\<forall>w'. w' = snd (disable_wayland_in_gdm ?w (str ''20240101_120000'')) \<or>
                w' = snd (enable_gdm_autologin ?w (str ''gert'') (str ''20240101_120000'')) \<longrightarrow>
         files w' (GDM_CUSTOM_CONF @ str ''.bak_'' @ str ''20240101_120000'') =
           Some (str ''[security]\<newline>x=1\<newline>'') \<and>
         (\<exists>rest. trace w' =
            trace ?w @ Copied GDM_CUSTOM_CONF
              (GDM_CUSTOM_CONF @ str ''.bak_'' @ str ''20240101_120000'') # rest)"
    by blast
  have t: "trace ?w = []" by simp
  from b [rule_format, of "snd (disable_wayland_in_gdm ?w (str ''20240101_120000''))"]
  have b1: "files (snd (disable_wayland_in_gdm ?w (str ''20240101_120000'')))
              (GDM_CUSTOM_CONF @ str ''.bak_'' @ str ''20240101_120000'') =
              Some (str ''[security]\<newline>x=1\<newline>'') \<and>
         (\<exists>rest. trace (snd (disable_wayland_in_gdm ?w (str ''20240101_120000''))) =
            Copied GDM_CUSTOM_CONF
              (GDM_CUSTOM_CONF @ str ''.bak_'' @ str ''20240101_120000'') # rest)"
    unfolding t by simp
  from b [rule_format, of "snd (enable_gdm_autologin ?w (str ''gert'') (str ''20240101_120000''))"]
  have b2: "files (snd (enable_gdm_autologin ?w (str ''gert'') (str ''20240101_120000'')))
              (GDM_CUSTOM_CONF @ str ''.bak_'' @ str ''20240101_120000'') =
              Some (str ''[security]\<newline>x=1\<newline>'') \<and>
         (\<exists>rest. trace (snd (enable_gdm_autologin ?w (str ''gert'') (str ''20240101_120000''))) =
            Copied GDM_CUSTOM_CONF
              (GDM_CUSTOM_CONF @ str ''.bak_'' @ str ''20240101_120000'') # rest)"
    unfolding t by simp
  show ?thesis unfolding Let_def
    by (insert h0 h a b1 b2, elim conjE, intro conjI, assumption+)
qed




end
